theory Spec2Isabelle
  imports Main
begin

section \<open>Context messages and the ignore rules\<close>

text \<open>
  A context message is a chat message (speaker and text) that may carry the file it was
  retrieved from. Only the fields that the code below reads are kept: \<open>fileName\<close>,
  \<open>repoName\<close>, \<open>uri\<close> and \<open>source\<close> of \<open>ContextFile\<close>. Optional fields are options; a URI
  is represented by its string.
\<close>

datatype speaker = Human | Assistant

record contextFile =
  fileName :: string
  repoName :: "string option"
  uri :: "string option"
  source :: "string option"

record contextMessage =
  speaker :: speaker
  msgText :: "string option"
  msgFile :: "contextFile option"

text \<open>
  \<open>isCodyIgnoredFile\<close> and \<open>isCodyIgnoredFilePath\<close> are imported from \<open>context-filter\<close>;
  they are taken as parameters.
\<close>

record ignoreRules =
  isCodyIgnoredFile :: "string \<Rightarrow> bool"
  isCodyIgnoredFilePath :: "string \<Rightarrow> string \<Rightarrow> bool"

datatype error = Error string

section \<open>Interaction\<close>

text \<open>
  An interaction message is kept abstract up to its \<open>metadata\<close> field, the only one the
  class writes. The \<open>fullContext\<close> promise is represented by what awaiting it gives: the
  rejection reason or the resolved list.
\<close>

record ('b, 'md) interactionMessage =
  body :: 'b
  im_metadata :: "'md option"

record ('b, 'md, 'cf, 'pc) interaction =
  humanMessage :: "('b, 'md) interactionMessage"
  assistantMessage :: "('b, 'md) interactionMessage"
  fullContext :: "error + contextMessage list"
  usedContextFiles :: "'cf list"
  usedPreciseContext :: "'pc list"
  timestamp :: string
  metadata :: "'md option"

record ('b, 'md, 'cf, 'pc) interactionJSON =
  json_humanMessage :: "('b, 'md) interactionMessage"
  json_assistantMessage :: "('b, 'md) interactionMessage"
  json_fullContext :: "contextMessage list"
  json_usedContextFiles :: "'cf list"
  json_usedPreciseContext :: "'pc list"
  json_timestamp :: string
  json_context :: "contextMessage list option"

text \<open>
  The \<open>for\<close> loop of \<open>removeCodyIgnoredFiles\<close>, with its index \<open>i\<close> and the array
  \<open>newMessages\<close> it pushes to. \<open>i++; continue\<close> followed by the loop's own increment
  advances the index by two. A string is truthy when it is not empty, an object when it
  is present.
\<close>

function removeLoop ::
  "ignoreRules \<Rightarrow> contextMessage list \<Rightarrow> nat \<Rightarrow> contextMessage list \<Rightarrow> contextMessage list"
where
  "removeLoop ig contextMessages i newMessages =
     (if i < length contextMessages then
        (if speaker (contextMessages ! i) = Human \<and> msgFile (contextMessages ! i) \<noteq> None then
           (if (case uri (the (msgFile (contextMessages ! i))) of
                  None \<Rightarrow> False | Some u \<Rightarrow> isCodyIgnoredFile ig u) then
              removeLoop ig contextMessages (i + 1 + 1) newMessages
            else if source (the (msgFile (contextMessages ! i))) = Some ''embeddings'' \<and>
                    (case repoName (the (msgFile (contextMessages ! i))) of
                       None \<Rightarrow> False
                     | Some r \<Rightarrow> r \<noteq> [] \<and>
                         isCodyIgnoredFilePath ig r (fileName (the (msgFile (contextMessages ! i))))) then
              removeLoop ig contextMessages (i + 1 + 1) newMessages
            else removeLoop ig contextMessages (i + 1) (newMessages @ [contextMessages ! i]))
         else removeLoop ig contextMessages (i + 1) (newMessages @ [contextMessages ! i]))
      else newMessages)"
  by pat_completeness auto
termination
  by (relation "measure (\<lambda>(ig, contextMessages, i, newMessages). length contextMessages - i)") auto

declare removeLoop.simps [simp del]

text \<open>
  \<open>removeCodyIgnoredFiles\<close> awaits the context, runs the loop and stores the new list back
  into the \<open>fullContext\<close> slot. A rejected promise rejects the call and leaves the slot.
\<close>

definition removeCodyIgnoredFiles ::
  "ignoreRules \<Rightarrow> ('b, 'md, 'cf, 'pc) interaction \<Rightarrow>
     (error + contextMessage list) \<times> ('b, 'md, 'cf, 'pc) interaction"
where
  "removeCodyIgnoredFiles ig this =
     (case fullContext this of
        Inl e \<Rightarrow> (Inl e, this)
      | Inr contextMessages \<Rightarrow>
          (Inr (removeLoop ig contextMessages 0 []),
           this\<lparr>fullContext := Inr (removeLoop ig contextMessages 0 [])\<rparr>))"

definition setMetadata ::
  "'md \<Rightarrow> ('b, 'md, 'cf, 'pc) interaction \<Rightarrow> ('b, 'md, 'cf, 'pc) interaction"
where
  "setMetadata md this =
     this\<lparr>metadata := Some md,
          humanMessage := (humanMessage this)\<lparr>im_metadata := Some md\<rparr>,
          assistantMessage := (assistantMessage this)\<lparr>im_metadata := Some md\<rparr>\<rparr>"

definition setAssistantMessage ::
  "('b, 'md) interactionMessage \<Rightarrow> ('b, 'md, 'cf, 'pc) interaction \<Rightarrow>
     ('b, 'md, 'cf, 'pc) interaction"
where
  "setAssistantMessage am this =
     this\<lparr>assistantMessage := am\<lparr>im_metadata := metadata this\<rparr>\<rparr>"

text \<open>The copy \<open>{ ...msg }\<close> of a message is the same value.\<close>

definition getFullContext ::
  "ignoreRules \<Rightarrow> ('b, 'md, 'cf, 'pc) interaction \<Rightarrow>
     (error + contextMessage list) \<times> ('b, 'md, 'cf, 'pc) interaction"
where
  "getFullContext ig this =
     (case removeCodyIgnoredFiles ig this of
        (Inl e, this') \<Rightarrow> (Inl e, this')
      | (Inr msgs, this') \<Rightarrow> (Inr (map (\<lambda>msg. msg) msgs), this'))"

definition hasContext ::
  "ignoreRules \<Rightarrow> ('b, 'md, 'cf, 'pc) interaction \<Rightarrow>
     (error + bool) \<times> ('b, 'md, 'cf, 'pc) interaction"
where
  "hasContext ig this =
     (case removeCodyIgnoredFiles ig this of
        (Inl e, this') \<Rightarrow> (Inl e, this')
      | (Inr contextMessages, this') \<Rightarrow> (Inr (length contextMessages > 0), this'))"

definition setUsedContext ::
  "'cf list \<Rightarrow> 'pc list \<Rightarrow> ('b, 'md, 'cf, 'pc) interaction \<Rightarrow> ('b, 'md, 'cf, 'pc) interaction"
where
  "setUsedContext files precise this =
     this\<lparr>usedContextFiles := files, usedPreciseContext := precise\<rparr>"

definition toJSON ::
  "('b, 'md, 'cf, 'pc) interaction \<Rightarrow> error + ('b, 'md, 'cf, 'pc) interactionJSON"
where
  "toJSON this =
     (case fullContext this of
        Inl e \<Rightarrow> Inl e
      | Inr ctx \<Rightarrow>
          Inr \<lparr>json_humanMessage = humanMessage this,
               json_assistantMessage = assistantMessage this,
               json_fullContext = ctx,
               json_usedContextFiles = usedContextFiles this,
               json_usedPreciseContext = usedPreciseContext this,
               json_timestamp = timestamp this,
               json_context = None\<rparr>)"

section \<open>The workspace and the prompt helpers\<close>

text \<open>
  \<open>helpers.ts\<close> reaches the editor through \<open>vscode.workspace\<close> and builds its messages with
  helpers of the prompt library. Both are gathered in one environment record that every
  function below takes as its first argument. A URI is represented by its file system path,
  so \<open>fileUri.fsPath\<close> and \<open>vscode.Uri.file\<close> are the identity.

  \<^item> \<open>stat\<close> is \<open>vscode.workspace.fs.stat\<close>, giving the \<open>size\<close> or rejecting;
  \<^item> \<open>readFile\<close> is \<open>vscode.workspace.fs.readFile\<close> and \<open>decode\<close> is
    \<open>new TextDecoder('utf-8').decode\<close>; either may fail;
  \<^item> \<open>joinPath\<close> is \<open>vscode.Uri.joinPath\<close> and \<open>asRelativePath\<close> is
    \<open>vscode.workspace.asRelativePath\<close>;
  \<^item> \<open>findFiles\<close> is \<open>vscode.workspace.findFiles\<close>; its last argument stands for the
    cancellation token and is the number of milliseconds after which the token is
    cancelled; the promise rejects, or resolves to a list, or to nothing;
  \<^item> \<open>truncateText\<close>, \<open>MAX_CURRENT_FILE_TOKENS\<close>, \<open>populateContextTemplateFromText\<close>,
    \<open>populateCodeContextTemplate\<close> and \<open>isValidTestFileName\<close> are imported from the
    prompt library; they are pure functions and constants, taken as parameters;
  \<^item> \<open>responseText\<close> and \<open>contextSource\<close> are the response text and the source kind that
    \<open>getContextMessageWithResponse\<close> puts into its two messages.
\<close>

datatype fileType = Unknown | File | Directory | SymbolicLink

record env =
  stat :: "string \<Rightarrow> error + nat"
  readFile :: "string \<Rightarrow> error + string"
  decode :: "string \<Rightarrow> error + string"
  joinPath :: "string \<Rightarrow> string \<Rightarrow> string"
  asRelativePath :: "string \<Rightarrow> string"
  findFiles :: "string \<Rightarrow> string \<Rightarrow> nat \<Rightarrow> nat \<Rightarrow> error + string list option"
  truncateText :: "string \<Rightarrow> nat \<Rightarrow> string"
  MAX_CURRENT_FILE_TOKENS :: nat
  populateContextTemplateFromText :: "string \<Rightarrow> string \<Rightarrow> string \<Rightarrow> string"
  populateCodeContextTemplate :: "string \<Rightarrow> string \<Rightarrow> string"
  isValidTestFileName :: "string \<Rightarrow> bool"
  responseText :: string
  contextSource :: "string option"

text \<open>
  Modelled from the spec: \<open>getContextMessageWithResponse\<close> is imported from
  \<open>codebase-context/messages\<close>, which is not among the sources. The specification says that
  a fragment is emitted as a human/assistant message pair, "the human half carrying
  the source reference, the assistant half carrying an acknowledgement/response payload";
  the comment in \<open>getCurrentDirFilteredContext\<close> counts two messages per file.
\<close>

definition getContextMessageWithResponse ::
  "env \<Rightarrow> string \<Rightarrow> string \<Rightarrow> contextMessage list"
where
  "getContextMessageWithResponse e txt name =
     [\<lparr>speaker = Human, msgText = Some txt,
       msgFile = Some \<lparr>fileName = name, repoName = None, uri = None,
                       source = contextSource e\<rparr>\<rparr>,
      \<lparr>speaker = Assistant, msgText = Some (responseText e), msgFile = None\<rparr>]"

text \<open>\<open>String.prototype.startsWith\<close>, \<open>endsWith\<close> and \<open>split\<close> with a one-character separator.\<close>

definition startsWith :: "string \<Rightarrow> string \<Rightarrow> bool" where
  "startsWith s t = (take (length t) s = t)"

definition endsWith :: "string \<Rightarrow> string \<Rightarrow> bool" where
  "endsWith s t = (length t \<le> length s \<and> drop (length s - length t) s = t)"

fun split :: "char \<Rightarrow> string \<Rightarrow> string list" where
  "split c [] = [[]]"
| "split c (x # xs) =
     (if x = c then [] # split c xs
      else (case split c xs of [] \<Rightarrow> [[x]] | y # ys \<Rightarrow> (x # y) # ys))"

section \<open>Directory context\<close>

text \<open>
  \<open>decodeVSCodeTextDoc\<close> wraps the read and the decoding in \<open>try\<close> and returns the empty
  string from its \<open>catch\<close>.
\<close>

definition decodeVSCodeTextDoc :: "env \<Rightarrow> string \<Rightarrow> string" where
  "decodeVSCodeTextDoc e fileUri =
     (case readFile e fileUri of
        Inl err \<Rightarrow> []
      | Inr bytes \<Rightarrow> (case decode e bytes of Inl err \<Rightarrow> [] | Inr decoded \<Rightarrow> decoded))"

definition createVSCodeRelativePath :: "env \<Rightarrow> string \<Rightarrow> string" where
  "createVSCodeRelativePath e filePath = asRelativePath e filePath"

text \<open>
  The body of the \<open>try\<close> block that both directory loops share: decode the file, truncate
  it, fill the template and build the message pair. \<open>decodeVSCodeTextDoc\<close> catches its own
  errors and the other calls are pure string functions, so nothing in the block raises
  and the \<open>catch\<close> that only logs has no branch here.
\<close>

definition dirFileContext :: "env \<Rightarrow> string \<Rightarrow> string \<Rightarrow> contextMessage list" where
  "dirFileContext e fileUri name =
     getContextMessageWithResponse e
       (populateContextTemplateFromText e ''Codebase context from file path {fileName}: ''
          (truncateText e (decodeVSCodeTextDoc e fileUri) (MAX_CURRENT_FILE_TOKENS e)) name)
       name"

text \<open>
  \<open>currentFileName.split('/')\<close>, then \<open>pop()?.split('.').shift() || ''\<close>: the last path segment
  up to its first dot.
\<close>

definition fileNameWithoutExt :: "string \<Rightarrow> string" where
  "fileNameWithoutExt currentFileName =
     (case rev (split CHR ''/'' currentFileName) of
        [] \<Rightarrow> []
      | lastPart # _ \<Rightarrow> (case split CHR ''.'' lastPart of [] \<Rightarrow> [] | first # _ \<Rightarrow> first))"

text \<open>
  The \<open>for\<close> loop of \<open>getCurrentDirFilteredContext\<close> over \<open>filesInDir\<close>, with the array
  \<open>contextMessages\<close> as accumulator. The \<open>await\<close> of \<open>stat\<close> stands outside the \<open>try\<close>
  block, so its rejection rejects the whole call. \<open>!fileSize.size\<close> holds for size \<open>0\<close>.
  \<open>maxFiles\<close> is an integer, which may be zero or negative.
\<close>

fun currentDirLoop ::
  "env \<Rightarrow> string \<Rightarrow> string \<Rightarrow> int \<Rightarrow> (string \<times> fileType) list \<Rightarrow>
     contextMessage list \<Rightarrow> error + contextMessage list"
where
  "currentDirLoop e dirUri currentFileName maxFiles [] contextMessages = Inr contextMessages"
| "currentDirLoop e dirUri currentFileName maxFiles (file # rest) contextMessages =
     (let fileUri = joinPath e dirUri (fst file);
          fileName = createVSCodeRelativePath e fileUri
      in case stat e fileUri of
           Inl err \<Rightarrow> Inl err
         | Inr fileSize \<Rightarrow>
             if fileSize > 1000000 \<or> fileSize = 0 then
               currentDirLoop e dirUri currentFileName maxFiles rest contextMessages
             else if fst file = currentFileName then
               currentDirLoop e dirUri currentFileName maxFiles rest contextMessages
             else
               (let pushed = contextMessages @ dirFileContext e fileUri fileName
                in if startsWith (fst file) (fileNameWithoutExt currentFileName) \<or>
                      endsWith (fst file) (fileNameWithoutExt currentFileName) then
                     Inr pushed
                   else if int (length pushed) \<ge> maxFiles * 2 then Inr pushed
                   else currentDirLoop e dirUri currentFileName maxFiles rest pushed))"

definition getCurrentDirFilteredContext ::
  "env \<Rightarrow> string \<Rightarrow> (string \<times> fileType) list \<Rightarrow> string \<Rightarrow> int \<Rightarrow>
     error + contextMessage list"
where
  "getCurrentDirFilteredContext e dirUri filesInDir currentFileName maxFiles =
     currentDirLoop e dirUri currentFileName maxFiles filesInDir []"

text \<open>The loop of \<open>getDirContextMessages\<close>: the same without the two early returns.\<close>

fun dirLoop ::
  "env \<Rightarrow> string \<Rightarrow> (string \<times> fileType) list \<Rightarrow> contextMessage list \<Rightarrow>
     error + contextMessage list"
where
  "dirLoop e dirUri [] contextMessages = Inr contextMessages"
| "dirLoop e dirUri (file # rest) contextMessages =
     (let fileUri = joinPath e dirUri (fst file);
          fileName = createVSCodeRelativePath e fileUri
      in case stat e fileUri of
           Inl err \<Rightarrow> Inl err
         | Inr fileSize \<Rightarrow>
             if fileSize > 1000000 \<or> fileSize = 0 then dirLoop e dirUri rest contextMessages
             else dirLoop e dirUri rest (contextMessages @ dirFileContext e fileUri fileName))"

definition getDirContextMessages ::
  "env \<Rightarrow> string \<Rightarrow> (string \<times> fileType) list \<Rightarrow> error + contextMessage list"
where
  "getDirContextMessages e dirUri filesInDir = dirLoop e dirUri filesInDir []"

section \<open>File search and test files\<close>

text \<open>
  \<open>excluded\<close> is the constant of that name in \<open>findVSCodeFiles\<close>:
  \<open>excludePattern || '**/{.*,node_modules,snap*}/**'\<close>, where the empty string is falsy.
\<close>

definition excluded :: "string option \<Rightarrow> string" where
  "excluded excludePattern =
     (case excludePattern of
        None \<Rightarrow> ''**/{.*,node_modules,snap*}/**''
      | Some p \<Rightarrow> if p = [] then ''**/{.*,node_modules,snap*}/**'' else p)"

text \<open>
  \<open>findVSCodeFiles\<close> creates a token, cancels it after 20000 ms, awaits the search and
  returns \<open>files || []\<close>; its \<open>catch\<close> returns \<open>[]\<close>. The result is a plain list: the function
  has no way to reject.
\<close>

definition findVSCodeFiles :: "env \<Rightarrow> string \<Rightarrow> string option \<Rightarrow> nat \<Rightarrow> string list" where
  "findVSCodeFiles e globalPattern excludePattern maxResults =
     (case findFiles e globalPattern (excluded excludePattern) maxResults 20000 of
        Inl err \<Rightarrow> []
      | Inr None \<Rightarrow> []
      | Inr (Some files) \<Rightarrow> files)"

definition getFilePathContext :: "env \<Rightarrow> string \<Rightarrow> string" where
  "getFilePathContext e filePath = decodeVSCodeTextDoc e filePath"

definition createFileContextResponseMessage ::
  "env \<Rightarrow> string \<Rightarrow> string \<Rightarrow> contextMessage list"
where
  "createFileContextResponseMessage e context filePath =
     (let fileName = createVSCodeRelativePath e filePath;
          truncatedContent = truncateText e context (MAX_CURRENT_FILE_TOKENS e)
      in getContextMessageWithResponse e
           (populateCodeContextTemplate e truncatedContent fileName) fileName)"

fun getContextMessageFromFiles :: "env \<Rightarrow> string list \<Rightarrow> contextMessage list" where
  "getContextMessageFromFiles e [] = []"
| "getContextMessageFromFiles e (file # files) =
     createFileContextResponseMessage e (getFilePathContext e file) file @
     getContextMessageFromFiles e files"

text \<open>
  \<open>basename\<close> and \<open>extname\<close> of Node's \<open>path\<close> module for POSIX paths: the last non-empty
  segment, and its part from the last dot on, which is empty when there is no dot or
  when the only dot is the first character. \<open>basenameExt\<close> is \<open>basename\<close> with its second
  argument, the suffix to remove.
\<close>

definition basename :: "string \<Rightarrow> string" where
  "basename path = (case rev (filter (\<lambda>s. s \<noteq> []) (split CHR ''/'' path)) of
      [] \<Rightarrow> [] | lastPart # _ \<Rightarrow> lastPart)"

definition extname :: "string \<Rightarrow> string" where
  "extname path =
     (let base = basename path;
          afterDot = rev (takeWhile (\<lambda>c. c \<noteq> CHR ''.'') (rev base))
      in if CHR ''.'' \<notin> set base \<or> base = ''..'' \<or> length base = length afterDot + 1 then []
         else CHR ''.'' # afterDot)"

definition basenameExt :: "string \<Rightarrow> string \<Rightarrow> string" where
  "basenameExt path ext =
     (let base = basename path
      in if ext \<noteq> [] \<and> base \<noteq> ext \<and> endsWith base ext
         then take (length base - length ext) base else base)"

definition createVSCodeTestSearchPattern :: "string \<Rightarrow> bool \<Rightarrow> string" where
  "createVSCodeTestSearchPattern fsPath allTestFiles =
     (let fileExtension = extname fsPath;
          fileName = basenameExt fsPath fileExtension;
          root = ''**'';
          defaultTestFilePattern = ''/*test*'' @ fileExtension;
          currentTestFilePattern =
            ''/*{test_'' @ fileName @ '','' @ fileName @ ''_test,test.'' @ fileName @ '','' @
            fileName @ ''.test,'' @ fileName @ ''Test}'' @ fileExtension
      in if allTestFiles then root @ defaultTestFilePattern
         else root @ currentTestFilePattern)"

definition getCurrentTestFileContext :: "env \<Rightarrow> string \<Rightarrow> bool \<Rightarrow> contextMessage list" where
  "getCurrentTestFileContext e fileName' isUnitTest =
     (let excludePattern =
            (if isUnitTest then Some ''**/*{e2e,integration,node_modules}*/**'' else None);
          searchPattern = createVSCodeTestSearchPattern fileName' False;
          foundFiles = findVSCodeFiles e searchPattern excludePattern 5
      in case find (isValidTestFileName e) foundFiles of
           Some testFile \<Rightarrow>
             createFileContextResponseMessage e (getFilePathContext e testFile) testFile
         | None \<Rightarrow> [])"

definition getCodebaseTestFilesContext :: "env \<Rightarrow> string \<Rightarrow> bool \<Rightarrow> contextMessage list" where
  "getCodebaseTestFilesContext e fileName' isUnitTest =
     (let excludePattern =
            (if isUnitTest then Some ''**/*{e2e,integration,node_modules}*/**'' else None);
          testFilesPattern = createVSCodeTestSearchPattern fileName' True;
          testFilesMatches = findVSCodeFiles e testFilesPattern excludePattern 5;
          filteredTestFiles = filter (isValidTestFileName e) testFilesMatches
      in getContextMessageFromFiles e filteredTestFiles)"

section \<open>Glob patterns\<close>

text \<open>
  The glob syntax of the editor, for the constructs that the patterns of \<open>helpers.ts\<close> use:
  \<open>{a,b}\<close> groups alternatives, \<open>*\<close> matches any number of characters within one path
  segment, \<open>?\<close> matches one, and a segment \<open>**\<close> matches any number of path segments,
  none included. \<open>braceExpand\<close> reads the pattern from left to right; its second argument
  holds the alternatives of the group being read.
\<close>

fun braceExpand ::
  "string list \<Rightarrow> (string list \<times> string) option \<Rightarrow> string \<Rightarrow> string list"
where
  "braceExpand done None [] = done"
| "braceExpand done (Some (alts, cur)) [] =
     map (\<lambda>d. d @ CHR ''{'' # concat (map (\<lambda>a. a @ '','') alts) @ cur) done"
| "braceExpand done None (c # cs) =
     (if c = CHR ''{'' then braceExpand done (Some ([], [])) cs
      else braceExpand (map (\<lambda>d. d @ [c]) done) None cs)"
| "braceExpand done (Some (alts, cur)) (c # cs) =
     (if c = CHR ''}'' then
        braceExpand (concat (map (\<lambda>d. map (\<lambda>alt. d @ alt) (alts @ [cur])) done)) None cs
      else if c = CHR '','' then braceExpand done (Some (alts @ [cur], [])) cs
      else braceExpand done (Some (alts, cur @ [c])) cs)"

fun wildMatch :: "string \<Rightarrow> string \<Rightarrow> bool" where
  "wildMatch [] s = (s = [])"
| "wildMatch (p # ps) [] = (p = CHR ''*'' \<and> wildMatch ps [])"
| "wildMatch (p # ps) (c # cs) =
     (if p = CHR ''*'' then wildMatch ps (c # cs) \<or> wildMatch (p # ps) cs
      else if p = CHR ''?'' then wildMatch ps cs
      else p = c \<and> wildMatch ps cs)"

fun segmentsMatch :: "string list \<Rightarrow> string list \<Rightarrow> bool" where
  "segmentsMatch [] ss = (ss = [])"
| "segmentsMatch (p # ps) [] = (p = ''**'' \<and> segmentsMatch ps [])"
| "segmentsMatch (p # ps) (s # ss) =
     (if p = ''**'' then segmentsMatch ps (s # ss) \<or> segmentsMatch (p # ps) ss
      else wildMatch p s \<and> segmentsMatch ps ss)"

definition globMatch :: "string \<Rightarrow> string \<Rightarrow> bool" where
  "globMatch pattern path =
     list_ex (\<lambda>p. segmentsMatch (split CHR ''/'' p) (split CHR ''/'' path))
       (braceExpand [[]] None pattern)"

section \<open>The search capability\<close>

text \<open>
  Modelled from the spec: \<open>findFiles(pattern, excludePattern, maxResults, cancellationToken)\<close>
  is a capability of the editor, outside the repository. The specification (sections 5
  and 6) says that a search whose token is cancelled "is cancelled and treated as no
  results". A search is described by the time it needs and by what it yields when it is
  left to finish; when it needs longer than the deadline of its token it is cancelled,
  and its promise then carries no result in one of three ways: it rejects, it resolves
  to nothing, or it resolves to the empty list.
\<close>

record searchRun =
  duration :: nat
  outcome :: "error + string list option"

datatype cancelResponse = RejectsCancelled | ResolvesUndefined | ResolvesEmpty

definition timedFindFiles ::
  "(string \<Rightarrow> string \<Rightarrow> nat \<Rightarrow> searchRun) \<Rightarrow> cancelResponse \<Rightarrow>
     string \<Rightarrow> string \<Rightarrow> nat \<Rightarrow> nat \<Rightarrow> error + string list option"
where
  "timedFindFiles engine onCancel pattern excludePattern maxResults deadline =
     (if duration (engine pattern excludePattern maxResults) > deadline then
        (case onCancel of
           RejectsCancelled \<Rightarrow> Inl (Error ''Canceled'')
         | ResolvesUndefined \<Rightarrow> Inr None
         | ResolvesEmpty \<Rightarrow> Inr (Some []))
      else outcome (engine pattern excludePattern maxResults))"

text \<open>
  A search capability honours its exclude pattern when no file it returns matches that
  pattern. \<open>globSearch\<close> is such a capability over a fixed list of workspace files.
\<close>

definition honoursExclude :: "env \<Rightarrow> bool" where
  "honoursExclude e =
     (\<forall>pattern excludePattern maxResults deadline files f.
        findFiles e pattern excludePattern maxResults deadline = Inr (Some files) \<and>
        f \<in> set files \<longrightarrow> \<not> globMatch excludePattern f)"

definition globSearch :: "string list \<Rightarrow> string \<Rightarrow> string \<Rightarrow> nat \<Rightarrow> string list" where
  "globSearch workspaceFiles pattern excludePattern maxResults =
     take maxResults
       (filter (\<lambda>f. globMatch pattern f \<and> \<not> globMatch excludePattern f) workspaceFiles)"

text \<open>
  A file lies inside an excluded directory when one of the directories on its path has
  a name that starts with a dot, is \<open>node_modules\<close>, or starts with \<open>snap\<close>.
\<close>

definition insideExcludedDirectory :: "string \<Rightarrow> bool" where
  "insideExcludedDirectory path =
     list_ex (\<lambda>dir. startsWith dir ''.'' \<or> dir = ''node_modules'' \<or> startsWith dir ''snap'')
       (butlast (split CHR ''/'' path))"

section \<open>The filter as the specification describes it\<close>

text \<open>
  The specification's wording of the filter: walk the fragment sequence; a human-speaker
  fragment carrying file info is dropped when its URI is ignored, or when its source is
  \<open>embeddings\<close> and its repository-relative path is ignored, and then one following
  element is skipped with it; every other fragment is retained, in order.
\<close>

definition ignoredFragment :: "ignoreRules \<Rightarrow> contextMessage \<Rightarrow> bool" where
  "ignoredFragment ig m =
     (speaker m = Human \<and>
      (case msgFile m of
         None \<Rightarrow> False
       | Some f \<Rightarrow>
           (case uri f of None \<Rightarrow> False | Some u \<Rightarrow> isCodyIgnoredFile ig u) \<or>
           (source f = Some ''embeddings'' \<and>
            (case repoName f of
               None \<Rightarrow> False
             | Some r \<Rightarrow> r \<noteq> [] \<and> isCodyIgnoredFilePath ig r (fileName f)))))"

fun walkFragments :: "ignoreRules \<Rightarrow> contextMessage list \<Rightarrow> contextMessage list" where
  "walkFragments ig [] = []"
| "walkFragments ig [m] = (if ignoredFragment ig m then [] else [m])"
| "walkFragments ig (m # n # rest) =
     (if ignoredFragment ig m then walkFragments ig rest else m # walkFragments ig (n # rest))"


section \<open>Sequences of calls on an interaction\<close>

text \<open>
  The methods that change an interaction, as a datatype, so that a property can be stated
  after any sequence of calls. \<open>getFullContext\<close> and \<open>hasContext\<close> are the two that
  run \<open>removeCodyIgnoredFiles\<close>.
\<close>

datatype ('b, 'md, 'cf, 'pc) operation =
    GetFullContext
  | HasContext
  | SetUsedContext "'cf list" "'pc list"
  | SetAssistantMessage "('b, 'md) interactionMessage"
  | SetMetadata 'md

fun applyOperation ::
  "ignoreRules \<Rightarrow> ('b, 'md, 'cf, 'pc) interaction \<Rightarrow> ('b, 'md, 'cf, 'pc) operation \<Rightarrow>
     ('b, 'md, 'cf, 'pc) interaction"
where
  "applyOperation ig this GetFullContext = snd (getFullContext ig this)"
| "applyOperation ig this HasContext = snd (hasContext ig this)"
| "applyOperation ig this (SetUsedContext files precise) = setUsedContext files precise this"
| "applyOperation ig this (SetAssistantMessage am) = setAssistantMessage am this"
| "applyOperation ig this (SetMetadata md) = setMetadata md this"

fun readsContext :: "('b, 'md, 'cf, 'pc) operation \<Rightarrow> bool" where
  "readsContext GetFullContext = True"
| "readsContext HasContext = True"
| "readsContext (SetUsedContext files precise) = False"
| "readsContext (SetAssistantMessage am) = False"
| "readsContext (SetMetadata md) = False"


section \<open>Example data\<close>

definition exampleRules :: ignoreRules where
  "exampleRules =
     \<lparr>isCodyIgnoredFile = (\<lambda>u. u = ''file:///repo/secret.ts''),
      isCodyIgnoredFilePath = (\<lambda>r f. f = ''secret.ts'')\<rparr>"

definition ignoredHuman :: contextMessage where
  "ignoredHuman =
     \<lparr>speaker = Human, msgText = Some ''secret'',
      msgFile = Some \<lparr>fileName = ''secret.ts'', repoName = None,
                      uri = Some ''file:///repo/secret.ts'', source = None\<rparr>\<rparr>"

definition ignoredAssistant :: contextMessage where
  "ignoredAssistant = \<lparr>speaker = Assistant, msgText = Some ''Ok.'', msgFile = None\<rparr>"

definition allowedHuman :: contextMessage where
  "allowedHuman =
     \<lparr>speaker = Human, msgText = Some ''public'',
      msgFile = Some \<lparr>fileName = ''main.ts'', repoName = None,
                      uri = Some ''file:///repo/main.ts'', source = None\<rparr>\<rparr>"

definition allowedAssistant :: contextMessage where
  "allowedAssistant = \<lparr>speaker = Assistant, msgText = Some ''Sure.'', msgFile = None\<rparr>"

definition exampleInteraction :: "(string, unit, unit, unit) interaction" where
  "exampleInteraction =
     \<lparr>humanMessage = \<lparr>body = ''question'', im_metadata = None\<rparr>,
      assistantMessage = \<lparr>body = ''answer'', im_metadata = None\<rparr>,
      fullContext = Inr [ignoredHuman, ignoredAssistant, allowedHuman, allowedAssistant],
      usedContextFiles = [],
      usedPreciseContext = [],
      timestamp = ''2023-11-01T00:00:00.000Z'',
      metadata = None\<rparr>"

section \<open>Notions used in the statements about the directory scan\<close>

text \<open>
  The fragment pair that a candidate of the listing contributes, the two outcomes of the
  size check, and the test of the early return.
\<close>

definition candidateContext :: "env \<Rightarrow> string \<Rightarrow> string \<times> fileType \<Rightarrow> contextMessage list" where
  "candidateContext e dirUri file =
     dirFileContext e (joinPath e dirUri (fst file))
       (createVSCodeRelativePath e (joinPath e dirUri (fst file)))"

definition sizeRejected :: "env \<Rightarrow> string \<Rightarrow> string \<times> fileType \<Rightarrow> bool" where
  "sizeRejected e dirUri file =
     (case stat e (joinPath e dirUri (fst file)) of
        Inl err \<Rightarrow> False
      | Inr fileSize \<Rightarrow> fileSize = 0 \<or> fileSize > 1000000)"

definition sizeAccepted :: "env \<Rightarrow> string \<Rightarrow> string \<times> fileType \<Rightarrow> bool" where
  "sizeAccepted e dirUri file =
     (case stat e (joinPath e dirUri (fst file)) of
        Inl err \<Rightarrow> False
      | Inr fileSize \<Rightarrow> 0 < fileSize \<and> fileSize \<le> 1000000)"

definition stemMatches :: "string \<Rightarrow> string \<times> fileType \<Rightarrow> bool" where
  "stemMatches currentFileName file =
     (startsWith (fst file) (fileNameWithoutExt currentFileName) \<or>
      endsWith (fst file) (fileNameWithoutExt currentFileName))"

definition statSucceeds :: "env \<Rightarrow> string \<Rightarrow> string \<times> fileType \<Rightarrow> bool" where
  "statSucceeds e dirUri file =
     (case stat e (joinPath e dirUri (fst file)) of Inl err \<Rightarrow> False | Inr fileSize \<Rightarrow> True)"

text \<open>
  The environment in which every failing read gives an empty file and every failing
  decoding gives the empty string.
\<close>

definition recoverReads :: "env \<Rightarrow> env" where
  "recoverReads e =
     e\<lparr>readFile := (\<lambda>u. case readFile e u of Inl err \<Rightarrow> Inr [] | Inr bytes \<Rightarrow> Inr bytes),
       decode := (\<lambda>bytes. case decode e bytes of Inl err \<Rightarrow> Inr [] | Inr s \<Rightarrow> Inr s)\<rparr>"

section \<open>Example workspaces\<close>

definition exampleEnv :: env where
  "exampleEnv =
     \<lparr>stat = (\<lambda>u. if u = ''/repo/src/big.ts'' then Inr 2000000
                 else if u = ''/repo/src/empty.ts'' \<or> u = ''/repo/src/foo.test.ts'' then Inr 0
                 else if u = ''/repo/src/gone.ts'' then Inl (Error ''ENOENT'')
                 else Inr 10),
      readFile = (\<lambda>u. if u = ''/repo/src/locked.ts'' then Inl (Error ''EACCES'')
                     else if u = ''/repo/src/binary.ts'' then Inr ''binary''
                     else Inr ''code''),
      decode = (\<lambda>bytes. if bytes = ''binary'' then Inl (Error ''invalid data'')
                         else Inr bytes),
      joinPath = (\<lambda>dir name. dir @ ''/'' @ name),
      asRelativePath = (\<lambda>p. drop 6 p),
      findFiles = (\<lambda>pattern excludePattern maxResults deadline. Inr (Some [])),
      truncateText = (\<lambda>txt n. take n txt),
      MAX_CURRENT_FILE_TOKENS = 1000,
      populateContextTemplateFromText = (\<lambda>template content name. name @ '': '' @ content),
      populateCodeContextTemplate = (\<lambda>code name. name @ '': '' @ code),
      isValidTestFileName = (\<lambda>p. True),
      responseText = ''Ok.'',
      contextSource = Some ''editor''\<rparr>"

definition examplePair :: "string \<Rightarrow> string \<Rightarrow> contextMessage list" where
  "examplePair name content =
     [\<lparr>speaker = Human, msgText = Some (name @ '': '' @ content),
       msgFile = Some \<lparr>fileName = name, repoName = None, uri = None,
                       source = Some ''editor''\<rparr>\<rparr>,
      \<lparr>speaker = Assistant, msgText = Some ''Ok.'', msgFile = None\<rparr>]"

definition slowEnv :: env where
  "slowEnv =
     exampleEnv\<lparr>findFiles :=
       timedFindFiles
         (\<lambda>pattern excludePattern maxResults.
            if pattern = ''**/*slow*'' then
              \<lparr>duration = 30000, outcome = Inr (Some [''/repo/src/slow.ts''])\<rparr>
            else if pattern = ''**/*bad*'' then
              \<lparr>duration = 5, outcome = Inl (Error ''search failed'')\<rparr>
            else \<lparr>duration = 5, outcome = Inr (Some [''/repo/src/bar.test.ts''])\<rparr>)
         ResolvesUndefined\<rparr>"

definition workspaceFiles :: "string list" where
  "workspaceFiles =
     [''src/bar.test.ts'', ''node_modules/pkg/x.test.ts'', ''.git/hooks/y.test.ts'',
      ''snapshots/z.test.ts'', ''src/bar.ts'']"

definition searchEnv :: env where
  "searchEnv =
     exampleEnv\<lparr>findFiles :=
       (\<lambda>pattern excludePattern maxResults deadline.
          Inr (Some (globSearch workspaceFiles pattern excludePattern maxResults)))\<rparr>"

section \<open>The loop of removeCodyIgnoredFiles is the walk\<close>

lemma removeLoop_step:
  "i < length cm \<Longrightarrow>
   removeLoop ig cm i new =
     (if ignoredFragment ig (cm ! i) then removeLoop ig cm (i + 2) new
      else removeLoop ig cm (i + 1) (new @ [cm ! i]))"
  by (subst removeLoop.simps) (auto simp: ignoredFragment_def split: option.splits)

lemma removeLoop_done: "length cm \<le> i \<Longrightarrow> removeLoop ig cm i new = new"
  by (subst removeLoop.simps) simp

lemma walk_drop_step:
  "i < length cm \<Longrightarrow>
   walkFragments ig (drop i cm) =
     (if ignoredFragment ig (cm ! i) then walkFragments ig (drop (i + 2) cm)
      else cm ! i # walkFragments ig (drop (i + 1) cm))"
proof -
  assume lt: "i < length cm"
  then have d: "drop i cm = cm ! i # drop (Suc i) cm"
    by (simp add: Cons_nth_drop_Suc)
  show ?thesis
  proof (cases "drop (Suc i) cm")
    case Nil
    then have "drop (i + 2) cm = []" by simp
    with d Nil show ?thesis by simp
  next
    case (Cons n rest)
    then have "drop (i + 2) cm = rest"
      by (metis add_2_eq_Suc' drop_Suc list.sel(3) tl_drop)
    with d Cons show ?thesis by simp
  qed
qed

lemma removeLoop_walk:
  "removeLoop ig cm i new = new @ walkFragments ig (drop i cm)"
proof (induction ig cm i new rule: removeLoop.induct)
  case (1 ig cm i new)
  show ?case
  proof (cases "i < length cm")
    case False
    then show ?thesis by (simp add: removeLoop_done)
  next
    case True
    show ?thesis
    proof (cases "ignoredFragment ig (cm ! i)")
      case ign: True
      have "removeLoop ig cm (i + 1 + 1) new = new @ walkFragments ig (drop (i + 1 + 1) cm)"
        using "1.IH"(1,2) True ign
        by (auto simp: ignoredFragment_def split: option.splits)
      then show ?thesis
        using True ign by (simp add: removeLoop_step walk_drop_step)
    next
      case keep: False
      have "removeLoop ig cm (i + 1) (new @ [cm ! i]) =
              (new @ [cm ! i]) @ walkFragments ig (drop (i + 1) cm)"
        using "1.IH"(3,4) True keep
        by (auto simp: ignoredFragment_def split: option.splits)
      then show ?thesis
        using True keep by (simp add: removeLoop_step walk_drop_step)
    qed
  qed
qed

lemma walk_keeps_unignored:
  "m \<in> set (walkFragments ig xs) \<Longrightarrow> \<not> ignoredFragment ig m"
  by (induction ig xs rule: walkFragments.induct) (auto split: if_splits)

lemma walk_unignored_id:
  "list_all (\<lambda>m. \<not> ignoredFragment ig m) xs \<Longrightarrow> walkFragments ig xs = xs"
  by (induction ig xs rule: walkFragments.induct) auto

lemma walk_idem: "walkFragments ig (walkFragments ig xs) = walkFragments ig xs"
  by (rule walk_unignored_id) (simp add: list_all_iff walk_keeps_unignored)

lemma removeLoop_eq_walk: "removeLoop ig cm 0 [] = walkFragments ig cm"
  by (simp add: removeLoop_walk)


section \<open>Claims about the interaction\<close>

text \<open>
  C1. For every fragment sequence held by an interaction, \<open>getFullContext\<close> returns the
  sequence obtained by walking it in order, dropping each human fragment with file info
  whose URI is ignored (or whose source is \<open>embeddings\<close> and whose repository-relative path
  is ignored) together with the one element after it, and keeping every other fragment in
  order; the filtered list is also stored back. In particular an ignored human/assistant
  pair followed by an allowed pair gives exactly the allowed pair.
\<close>

theorem getFullContext_walks_fragments:
  "(fullContext this = Inr msgs \<longrightarrow>
      getFullContext ig this =
        (Inr (walkFragments ig msgs), this\<lparr>fullContext := Inr (walkFragments ig msgs)\<rparr>)) \<and>
   (fullContext this = Inr [h, a, h2, a2] \<and> ignoredFragment ig h \<and>
    \<not> ignoredFragment ig h2 \<and> speaker a2 = Assistant \<longrightarrow>
      fst (getFullContext ig this) = Inr [h2, a2])"
  by (simp add: getFullContext_def removeCodyIgnoredFiles_def removeLoop_eq_walk
      ignoredFragment_def)

theorem getFullContext_walks_fragments_witness:
  "fullContext exampleInteraction =
     Inr [ignoredHuman, ignoredAssistant, allowedHuman, allowedAssistant] \<and>
   ignoredFragment exampleRules ignoredHuman \<and>
   \<not> ignoredFragment exampleRules allowedHuman \<and>
   speaker allowedAssistant = Assistant \<and>
   getFullContext exampleRules exampleInteraction =
     (Inr [allowedHuman, allowedAssistant],
      exampleInteraction\<lparr>fullContext := Inr [allowedHuman, allowedAssistant]\<rparr>) \<and>
   fst (getFullContext exampleRules exampleInteraction) = Inr [allowedHuman, allowedAssistant]"
  using getFullContext_walks_fragments [of exampleInteraction
      "[ignoredHuman, ignoredAssistant, allowedHuman, allowedAssistant]" exampleRules
      ignoredHuman ignoredAssistant allowedHuman allowedAssistant]
  by (simp add: exampleInteraction_def exampleRules_def ignoredFragment_def ignoredHuman_def
      ignoredAssistant_def allowedHuman_def allowedAssistant_def)

text \<open>
  C2. The filter is idempotent: running the loop of \<open>removeCodyIgnoredFiles\<close> on its own
  output gives that output again, and a second call of \<open>removeCodyIgnoredFiles\<close> on an
  interaction returns the same list and leaves the same state as the first.
\<close>

theorem removeCodyIgnoredFiles_idempotent:
  "removeLoop ig (removeLoop ig cm 0 []) 0 [] = removeLoop ig cm 0 [] \<and>
   removeCodyIgnoredFiles ig (snd (removeCodyIgnoredFiles ig this)) =
     removeCodyIgnoredFiles ig this"
  by (cases "fullContext this")
     (simp_all add: removeCodyIgnoredFiles_def removeLoop_eq_walk walk_idem)

theorem removeCodyIgnoredFiles_idempotent_witness:
  "removeLoop exampleRules
     [ignoredHuman, ignoredAssistant, allowedHuman, allowedAssistant] 0 [] =
     [allowedHuman, allowedAssistant] \<and>
   removeLoop exampleRules [allowedHuman, allowedAssistant] 0 [] =
     [allowedHuman, allowedAssistant]"
  using removeCodyIgnoredFiles_idempotent [of exampleRules
      "[ignoredHuman, ignoredAssistant, allowedHuman, allowedAssistant]" exampleInteraction]
  by (simp add: removeLoop_eq_walk exampleRules_def ignoredFragment_def ignoredHuman_def
      ignoredAssistant_def allowedHuman_def allowedAssistant_def)

lemma applyOperation_fullContext:
  "fullContext this = Inr ctx \<Longrightarrow>
   fullContext (applyOperation ig this op) =
     Inr (if readsContext op then walkFragments ig ctx else ctx)"
  by (cases op)
     (simp_all add: getFullContext_def hasContext_def removeCodyIgnoredFiles_def
        setUsedContext_def setAssistantMessage_def setMetadata_def removeLoop_eq_walk)

lemma foldl_applyOperation_fullContext:
  "fullContext this = Inr ctx \<Longrightarrow>
   fullContext (foldl (applyOperation ig) this ops) =
     Inr (if list_ex readsContext ops then walkFragments ig ctx else ctx)"
proof (induction ops arbitrary: this ctx)
  case Nil
  then show ?case by simp
next
  case (Cons op ops)
  have step: "fullContext (applyOperation ig this op) =
      Inr (if readsContext op then walkFragments ig ctx else ctx)"
    using Cons.prems by (rule applyOperation_fullContext)
  show ?case
    using Cons.IH [OF step] by (simp add: walk_idem)
qed

text \<open>
  C3 (as amended). \<open>toJSON\<close> serializes what the \<open>fullContext\<close> slot holds when it is
  called: the fragments the interaction was constructed with while neither
  \<open>getFullContext\<close> nor \<open>hasContext\<close> has run, and the filtered sequence once one of them
  has. It emits no \<open>context\<close> field.
\<close>

theorem toJSON_serializes_current_slot:
  "fullContext this = Inr raw \<longrightarrow>
     (\<exists>j. toJSON (foldl (applyOperation ig) this ops) = Inr j \<and>
          json_fullContext j = (if list_ex readsContext ops then walkFragments ig raw else raw) \<and>
          json_context j = None)"
proof
  assume "fullContext this = Inr raw"
  then have "fullContext (foldl (applyOperation ig) this ops) =
      Inr (if list_ex readsContext ops then walkFragments ig raw else raw)"
    by (rule foldl_applyOperation_fullContext)
  then show "\<exists>j. toJSON (foldl (applyOperation ig) this ops) = Inr j \<and>
          json_fullContext j = (if list_ex readsContext ops then walkFragments ig raw else raw) \<and>
          json_context j = None"
    by (simp add: toJSON_def)
qed

theorem toJSON_serializes_current_slot_witness:
  "fullContext exampleInteraction =
     Inr [ignoredHuman, ignoredAssistant, allowedHuman, allowedAssistant] \<and>
   (\<exists>j. toJSON (foldl (applyOperation exampleRules) exampleInteraction
            [SetMetadata (), HasContext, SetUsedContext [] []]) = Inr j \<and>
        json_fullContext j = [allowedHuman, allowedAssistant] \<and>
        json_context j = None)"
  using toJSON_serializes_current_slot [of exampleInteraction
      "[ignoredHuman, ignoredAssistant, allowedHuman, allowedAssistant]" exampleRules
      "[SetMetadata (), HasContext, SetUsedContext [] []]"]
  by (simp add: exampleInteraction_def exampleRules_def ignoredFragment_def ignoredHuman_def
      ignoredAssistant_def allowedHuman_def allowedAssistant_def)

theorem toJSON_raw_context_counterexample:
  "fullContext exampleInteraction =
     Inr [ignoredHuman, ignoredAssistant, allowedHuman, allowedAssistant] \<and>
   toJSON (snd (getFullContext exampleRules exampleInteraction)) =
     Inr \<lparr>json_humanMessage = \<lparr>body = ''question'', im_metadata = None\<rparr>,
          json_assistantMessage = \<lparr>body = ''answer'', im_metadata = None\<rparr>,
          json_fullContext = [allowedHuman, allowedAssistant],
          json_usedContextFiles = [],
          json_usedPreciseContext = [],
          json_timestamp = ''2023-11-01T00:00:00.000Z'',
          json_context = None\<rparr> \<and>
   [allowedHuman, allowedAssistant] \<noteq>
     [ignoredHuman, ignoredAssistant, allowedHuman, allowedAssistant]"
  by (simp add: toJSON_def getFullContext_def removeCodyIgnoredFiles_def removeLoop_eq_walk
      exampleInteraction_def exampleRules_def ignoredFragment_def ignoredHuman_def
      ignoredAssistant_def allowedHuman_def allowedAssistant_def)

section \<open>Lemmas about the directory loops\<close>

lemma length_dirFileContext [simp]: "length (dirFileContext e u n) = 2"
  by (simp add: dirFileContext_def getContextMessageWithResponse_def)

lemma length_candidateContext [simp]: "length (candidateContext e d f) = 2"
  by (simp add: candidateContext_def)

lemma currentDirLoop_skips_rejected:
  "sizeRejected e d f \<Longrightarrow>
   currentDirLoop e d cur mx (xs @ f # ys) acc = currentDirLoop e d cur mx (xs @ ys) acc"
proof (induction xs arbitrary: acc)
  case Nil
  then show ?case
    by (auto simp: sizeRejected_def Let_def split: sum.splits)
next
  case (Cons x xs)
  then show ?case
    by (simp add: Let_def split: sum.splits)
qed

lemma dirLoop_skips_rejected:
  "sizeRejected e d f \<Longrightarrow> dirLoop e d (xs @ f # ys) acc = dirLoop e d (xs @ ys) acc"
proof (induction xs arbitrary: acc)
  case Nil
  then show ?case
    by (auto simp: sizeRejected_def Let_def split: sum.splits)
next
  case (Cons x xs)
  then show ?case
    by (simp add: Let_def split: sum.splits)
qed

lemma currentDirLoop_provenance:
  "currentDirLoop e d cur mx files acc = Inr msgs \<Longrightarrow> m \<in> set msgs \<Longrightarrow>
   m \<in> set acc \<or> (\<exists>f \<in> set files. sizeAccepted e d f \<and> m \<in> set (candidateContext e d f))"
proof (induction files arbitrary: acc)
  case Nil
  then show ?case by simp
next
  case (Cons x xs)
  show ?case
  proof (cases "stat e (joinPath e d (fst x))")
    case (Inl err)
    with Cons.prems show ?thesis by (simp add: Let_def)
  next
    case (Inr fileSize)
    show ?thesis
    proof (cases "fileSize > 1000000 \<or> fileSize = 0 \<or> fst x = cur")
      case True
      with Cons.prems Inr have "currentDirLoop e d cur mx xs acc = Inr msgs"
        by (auto simp: Let_def split: if_splits)
      from Cons.IH [OF this Cons.prems(2)] show ?thesis by auto
    next
      case False
      then have acc: "sizeAccepted e d x"
        using Inr by (simp add: sizeAccepted_def)
      let ?pushed = "acc @ candidateContext e d x"
      have "msgs = ?pushed \<or> currentDirLoop e d cur mx xs ?pushed = Inr msgs"
        using Cons.prems(1) Inr False
        by (auto simp: Let_def candidateContext_def split: if_splits)
      then show ?thesis
      proof
        assume "msgs = ?pushed"
        with Cons.prems(2) acc show ?thesis by auto
      next
        assume "currentDirLoop e d cur mx xs ?pushed = Inr msgs"
        from Cons.IH [OF this Cons.prems(2)] acc show ?thesis by auto
      qed
    qed
  qed
qed

lemma dirLoop_provenance:
  "dirLoop e d files acc = Inr msgs \<Longrightarrow> m \<in> set msgs \<Longrightarrow>
   m \<in> set acc \<or> (\<exists>f \<in> set files. sizeAccepted e d f \<and> m \<in> set (candidateContext e d f))"
proof (induction files arbitrary: acc)
  case Nil
  then show ?case by simp
next
  case (Cons x xs)
  show ?case
  proof (cases "stat e (joinPath e d (fst x))")
    case (Inl err)
    with Cons.prems show ?thesis by (simp add: Let_def)
  next
    case (Inr fileSize)
    show ?thesis
    proof (cases "fileSize > 1000000 \<or> fileSize = 0")
      case True
      with Cons.prems Inr have "dirLoop e d xs acc = Inr msgs"
        by (auto simp: Let_def split: if_splits)
      from Cons.IH [OF this Cons.prems(2)] show ?thesis by auto
    next
      case False
      then have acc: "sizeAccepted e d x"
        using Inr by (simp add: sizeAccepted_def)
      let ?pushed = "acc @ candidateContext e d x"
      have "dirLoop e d xs ?pushed = Inr msgs"
        using Cons.prems(1) Inr False
        by (auto simp: Let_def candidateContext_def split: if_splits)
      from Cons.IH [OF this Cons.prems(2)] acc show ?thesis by auto
    qed
  qed
qed

lemma currentDirLoop_early_exit:
  "sizeAccepted e d f \<Longrightarrow> fst f \<noteq> cur \<Longrightarrow> stemMatches cur f \<Longrightarrow>
   currentDirLoop e d cur mx (f # ys) acc = Inr (acc @ candidateContext e d f)"
  by (auto simp: sizeAccepted_def stemMatches_def candidateContext_def Let_def split: sum.splits)

lemma currentDirLoop_cut_after_match:
  "sizeAccepted e d f \<Longrightarrow> fst f \<noteq> cur \<Longrightarrow> stemMatches cur f \<Longrightarrow>
   currentDirLoop e d cur mx (xs @ f # ys) acc = currentDirLoop e d cur mx (xs @ [f]) acc"
proof (induction xs arbitrary: acc)
  case Nil
  then show ?case
    using currentDirLoop_early_exit [of e d f cur mx ys acc]
      currentDirLoop_early_exit [of e d f cur mx "[]" acc]
    by simp
next
  case (Cons x xs)
  then show ?case by (simp add: Let_def split: sum.splits)
qed

lemma currentDirLoop_bound:
  "1 \<le> mx \<Longrightarrow> even (length acc) \<Longrightarrow> int (length acc) < 2 * mx \<Longrightarrow>
   currentDirLoop e d cur mx files acc = Inr msgs \<Longrightarrow>
   even (length msgs) \<and> int (length msgs) \<le> 2 * mx"
proof (induction files arbitrary: acc)
  case Nil
  then show ?case by auto
next
  case (Cons x xs)
  show ?case
  proof (cases "stat e (joinPath e d (fst x))")
    case (Inl err)
    with Cons.prems show ?thesis by (simp add: Let_def)
  next
    case (Inr fileSize)
    show ?thesis
    proof (cases "fileSize > 1000000 \<or> fileSize = 0 \<or> fst x = cur")
      case True
      with Cons.prems Inr have "currentDirLoop e d cur mx xs acc = Inr msgs"
        by (auto simp: Let_def split: if_splits)
      from Cons.IH [OF Cons.prems(1,2,3) this] show ?thesis .
    next
      case False
      let ?pushed = "acc @ candidateContext e d x"
      have ev: "even (length ?pushed)" using Cons.prems(2) by simp
      have le: "int (length ?pushed) \<le> 2 * mx"
        using Cons.prems(2,3) by (auto elim!: evenE)
      have "msgs = ?pushed \<or>
            (int (length ?pushed) < 2 * mx \<and> currentDirLoop e d cur mx xs ?pushed = Inr msgs)"
        using Cons.prems(4) Inr False
        by (auto simp: Let_def candidateContext_def split: if_splits)
      then show ?thesis
      proof
        assume "msgs = ?pushed"
        with ev le show ?thesis by simp
      next
        assume a: "int (length ?pushed) < 2 * mx \<and>
                   currentDirLoop e d cur mx xs ?pushed = Inr msgs"
        from Cons.IH [OF Cons.prems(1) ev] a show ?thesis by blast
      qed
    qed
  qed
qed

lemma currentDirLoop_stops_at_cap:
  "int (length acc) < 2 * mx \<Longrightarrow> currentDirLoop e d cur mx xs acc = Inr msgs \<Longrightarrow>
   2 * mx \<le> int (length msgs) \<Longrightarrow> currentDirLoop e d cur mx (xs @ ys) acc = Inr msgs"
proof (induction xs arbitrary: acc)
  case Nil
  then show ?case by simp
next
  case (Cons x xs)
  show ?case
  proof (cases "stat e (joinPath e d (fst x))")
    case (Inl err)
    with Cons.prems show ?thesis by (simp add: Let_def)
  next
    case (Inr fileSize)
    show ?thesis
    proof (cases "fileSize > 1000000 \<or> fileSize = 0 \<or> fst x = cur")
      case True
      with Cons.prems Inr have "currentDirLoop e d cur mx xs acc = Inr msgs"
        by (auto simp: Let_def split: if_splits)
      from Cons.IH [OF Cons.prems(1) this Cons.prems(3)] True Inr show ?thesis
        by (auto simp: Let_def)
    next
      case False
      let ?pushed = "acc @ candidateContext e d x"
      show ?thesis
      proof (cases "stemMatches cur x \<or> int (length ?pushed) \<ge> mx * 2")
        case True
        with Cons.prems(2) Inr False show ?thesis
          by (auto simp: Let_def candidateContext_def stemMatches_def)
      next
        case noexit: False
        with Cons.prems(2) Inr False
        have run: "currentDirLoop e d cur mx xs ?pushed = Inr msgs"
          by (auto simp: Let_def candidateContext_def stemMatches_def)
        have "int (length ?pushed) < 2 * mx" using noexit by simp
        from Cons.IH [OF this run Cons.prems(3)] noexit Inr False show ?thesis
          by (auto simp: Let_def candidateContext_def stemMatches_def)
      qed
    qed
  qed
qed

lemma decodeVSCodeTextDoc_recoverReads:
  "decode e [] = Inr [] \<Longrightarrow>
   decodeVSCodeTextDoc (recoverReads e) u = decodeVSCodeTextDoc e u"
  by (simp add: decodeVSCodeTextDoc_def recoverReads_def split: sum.splits)

lemma dirFileContext_recoverReads:
  "decode e [] = Inr [] \<Longrightarrow> dirFileContext (recoverReads e) u n = dirFileContext e u n"
  by (simp add: dirFileContext_def decodeVSCodeTextDoc_recoverReads)
     (simp add: recoverReads_def getContextMessageWithResponse_def)

lemma currentDirLoop_recoverReads:
  "decode e [] = Inr [] \<Longrightarrow>
   currentDirLoop (recoverReads e) d cur mx files acc = currentDirLoop e d cur mx files acc"
proof (induction files arbitrary: acc)
  case Nil
  then show ?case by simp
next
  case (Cons x xs)
  have same: "stat (recoverReads e) = stat e" "joinPath (recoverReads e) = joinPath e"
    "createVSCodeRelativePath (recoverReads e) = createVSCodeRelativePath e"
    by (simp_all add: recoverReads_def createVSCodeRelativePath_def fun_eq_iff)
  show ?case
    using Cons by (simp add: Let_def same dirFileContext_recoverReads split: sum.splits)
qed

lemma currentDirLoop_returns:
  "list_all (statSucceeds e d) files \<Longrightarrow> \<exists>msgs. currentDirLoop e d cur mx files acc = Inr msgs"
  by (induction files arbitrary: acc) (auto simp: statSucceeds_def Let_def split: sum.splits)

subsection \<open>The example workspace, evaluated\<close>

lemma example_stems:
  "fileNameWithoutExt ''foo.ts'' = ''foo''"
  "fileNameWithoutExt ''cur.ts'' = ''cur''"
  "fileNameWithoutExt ''f.ts'' = ''f''"
  "fileNameWithoutExt ''foo.test.ts'' = ''foo''"
  by (simp_all add: fileNameWithoutExt_def)

lemmas scan_eval =
  getCurrentDirFilteredContext_def getDirContextMessages_def exampleEnv_def examplePair_def
  Let_def dirFileContext_def getContextMessageWithResponse_def decodeVSCodeTextDoc_def
  createVSCodeRelativePath_def example_stems startsWith_def endsWith_def
  sizeRejected_def sizeAccepted_def candidateContext_def stemMatches_def statSucceeds_def

lemma example_scan_four:
  "getCurrentDirFilteredContext exampleEnv ''/repo/src''
     [(''a.ts'', File), (''big.ts'', File), (''empty.ts'', File), (''b.ts'', File)] ''cur.ts'' 5 =
     Inr (examplePair ''src/a.ts'' ''code'' @ examplePair ''src/b.ts'' ''code'')"
  by (simp add: scan_eval)

lemma example_dir_four:
  "getDirContextMessages exampleEnv ''/repo/src''
     [(''a.ts'', File), (''big.ts'', File), (''empty.ts'', File), (''b.ts'', File)] =
     Inr (examplePair ''src/a.ts'' ''code'' @ examplePair ''src/b.ts'' ''code'')"
  by (simp add: scan_eval)

lemma example_sizes:
  "sizeRejected exampleEnv ''/repo/src'' (''big.ts'', File)"
  "sizeRejected exampleEnv ''/repo/src'' (''empty.ts'', File)"
  "sizeAccepted exampleEnv ''/repo/src'' (''b.ts'', File)"
  "sizeAccepted exampleEnv ''/repo/src'' (''foo.spec.ts'', File)"
  by (simp_all add: scan_eval)

lemma example_stem: "stemMatches ''foo.ts'' (''foo.spec.ts'', File)"
  by (simp add: scan_eval)

lemma example_scan_companion:
  "getCurrentDirFilteredContext exampleEnv ''/repo/src''
     [(''a.ts'', File), (''foo.spec.ts'', File)] ''foo.ts'' 5 =
     Inr (examplePair ''src/a.ts'' ''code'' @ examplePair ''src/foo.spec.ts'' ''code'')"
  by (simp add: scan_eval)

lemma example_scan_two:
  "getCurrentDirFilteredContext exampleEnv ''/repo/src''
     [(''a.ts'', File), (''b.ts'', File)] ''cur.ts'' 2 =
     Inr (examplePair ''src/a.ts'' ''code'' @ examplePair ''src/b.ts'' ''code'')"
  by (simp add: scan_eval)

lemma example_scan_locked:
  "getCurrentDirFilteredContext exampleEnv ''/repo/src''
     [(''locked.ts'', File), (''b.ts'', File)] ''cur.ts'' 5 =
     Inr (examplePair ''src/locked.ts'' [] @ examplePair ''src/b.ts'' ''code'')"
  by (simp add: scan_eval)

lemma example_scan_recovered:
  "getCurrentDirFilteredContext (recoverReads exampleEnv) ''/repo/src''
     [(''locked.ts'', File), (''b.ts'', File)] ''cur.ts'' 5 =
     Inr (examplePair ''src/locked.ts'' [] @ examplePair ''src/b.ts'' ''code'')"
  by (simp add: scan_eval recoverReads_def)

section \<open>Claims about the directory scan\<close>

text \<open>
  C4. A candidate whose reported size is 0 or greater than 1,000,000 contributes no
  fragment: removing it from the listing changes the result neither of
  \<open>getCurrentDirFilteredContext\<close> nor of \<open>getDirContextMessages\<close>, and every message that
  either returns belongs to the fragment pair of a candidate whose size is between 1 and
  1,000,000.
\<close>

theorem size_ceiling_respected:
  "(sizeRejected e d f \<longrightarrow>
      getCurrentDirFilteredContext e d (xs @ f # ys) cur mx =
        getCurrentDirFilteredContext e d (xs @ ys) cur mx \<and>
      getDirContextMessages e d (xs @ f # ys) = getDirContextMessages e d (xs @ ys)) \<and>
   (getCurrentDirFilteredContext e d files cur mx = Inr msgs \<and> m \<in> set msgs \<longrightarrow>
      (\<exists>c \<in> set files. sizeAccepted e d c \<and> m \<in> set (candidateContext e d c))) \<and>
   (getDirContextMessages e d files = Inr msgs' \<and> m' \<in> set msgs' \<longrightarrow>
      (\<exists>c \<in> set files. sizeAccepted e d c \<and> m' \<in> set (candidateContext e d c)))"
proof (intro conjI impI)
  assume "sizeRejected e d f"
  then show "getCurrentDirFilteredContext e d (xs @ f # ys) cur mx =
        getCurrentDirFilteredContext e d (xs @ ys) cur mx"
    and "getDirContextMessages e d (xs @ f # ys) = getDirContextMessages e d (xs @ ys)"
    by (simp_all add: getCurrentDirFilteredContext_def getDirContextMessages_def
        currentDirLoop_skips_rejected dirLoop_skips_rejected)
next
  assume "getCurrentDirFilteredContext e d files cur mx = Inr msgs \<and> m \<in> set msgs"
  then show "\<exists>c \<in> set files. sizeAccepted e d c \<and> m \<in> set (candidateContext e d c)"
    using currentDirLoop_provenance [of e d cur mx files "[]" msgs m]
    by (simp add: getCurrentDirFilteredContext_def)
next
  assume "getDirContextMessages e d files = Inr msgs' \<and> m' \<in> set msgs'"
  then show "\<exists>c \<in> set files. sizeAccepted e d c \<and> m' \<in> set (candidateContext e d c)"
    using dirLoop_provenance [of e d files "[]" msgs' m']
    by (simp add: getDirContextMessages_def)
qed

theorem size_ceiling_respected_witness:
  "sizeRejected exampleEnv ''/repo/src'' (''big.ts'', File) \<and>
   getCurrentDirFilteredContext exampleEnv ''/repo/src''
     [(''a.ts'', File), (''big.ts'', File), (''empty.ts'', File), (''b.ts'', File)] ''cur.ts'' 5 =
     Inr (examplePair ''src/a.ts'' ''code'' @ examplePair ''src/b.ts'' ''code'') \<and>
   getCurrentDirFilteredContext exampleEnv ''/repo/src''
     [(''a.ts'', File), (''empty.ts'', File), (''b.ts'', File)] ''cur.ts'' 5 =
     Inr (examplePair ''src/a.ts'' ''code'' @ examplePair ''src/b.ts'' ''code'') \<and>
   getDirContextMessages exampleEnv ''/repo/src''
     [(''a.ts'', File), (''empty.ts'', File), (''b.ts'', File)] =
     Inr (examplePair ''src/a.ts'' ''code'' @ examplePair ''src/b.ts'' ''code'') \<and>
   hd (examplePair ''src/b.ts'' ''code'') \<in>
     set (examplePair ''src/a.ts'' ''code'' @ examplePair ''src/b.ts'' ''code'') \<and>
   (\<exists>c \<in> set [(''a.ts'', File), (''big.ts'', File), (''empty.ts'', File), (''b.ts'', File)].
      sizeAccepted exampleEnv ''/repo/src'' c \<and>
      hd (examplePair ''src/b.ts'' ''code'') \<in> set (candidateContext exampleEnv ''/repo/src'' c))"
proof -
  note inst = size_ceiling_respected [of exampleEnv "''/repo/src''" "(''big.ts'', File)"
      "[(''a.ts'', File)]" "[(''empty.ts'', File), (''b.ts'', File)]" "''cur.ts''" 5
      "[(''a.ts'', File), (''big.ts'', File), (''empty.ts'', File), (''b.ts'', File)]"
      "examplePair ''src/a.ts'' ''code'' @ examplePair ''src/b.ts'' ''code''"
      "hd (examplePair ''src/b.ts'' ''code'')"
      "examplePair ''src/a.ts'' ''code'' @ examplePair ''src/b.ts'' ''code''"
      "hd (examplePair ''src/b.ts'' ''code'')"]
  have mem: "hd (examplePair ''src/b.ts'' ''code'') \<in>
      set (examplePair ''src/a.ts'' ''code'' @ examplePair ''src/b.ts'' ''code'')"
    by (simp add: examplePair_def)
  have "getCurrentDirFilteredContext exampleEnv ''/repo/src''
          ([(''a.ts'', File)] @ (''big.ts'', File) # [(''empty.ts'', File), (''b.ts'', File)])
          ''cur.ts'' 5 =
        getCurrentDirFilteredContext exampleEnv ''/repo/src''
          ([(''a.ts'', File)] @ [(''empty.ts'', File), (''b.ts'', File)]) ''cur.ts'' 5 \<and>
        getDirContextMessages exampleEnv ''/repo/src''
          ([(''a.ts'', File)] @ (''big.ts'', File) # [(''empty.ts'', File), (''b.ts'', File)]) =
        getDirContextMessages exampleEnv ''/repo/src''
          ([(''a.ts'', File)] @ [(''empty.ts'', File), (''b.ts'', File)])"
    using inst [THEN conjunct1] example_sizes(1) by (rule mp)
  then have e1: "getCurrentDirFilteredContext exampleEnv ''/repo/src''
        [(''a.ts'', File), (''big.ts'', File), (''empty.ts'', File), (''b.ts'', File)]
        ''cur.ts'' 5 =
      getCurrentDirFilteredContext exampleEnv ''/repo/src''
        [(''a.ts'', File), (''empty.ts'', File), (''b.ts'', File)] ''cur.ts'' 5"
    and e2: "getDirContextMessages exampleEnv ''/repo/src''
        [(''a.ts'', File), (''big.ts'', File), (''empty.ts'', File), (''b.ts'', File)] =
      getDirContextMessages exampleEnv ''/repo/src''
        [(''a.ts'', File), (''empty.ts'', File), (''b.ts'', File)]"
    by simp_all
  have prov: "\<exists>c \<in> set [(''a.ts'', File), (''big.ts'', File), (''empty.ts'', File),
        (''b.ts'', File)].
      sizeAccepted exampleEnv ''/repo/src'' c \<and>
      hd (examplePair ''src/b.ts'' ''code'') \<in> set (candidateContext exampleEnv ''/repo/src'' c)"
    using inst [THEN conjunct2, THEN conjunct1] example_scan_four mem by blast
  show ?thesis
    unfolding e1 [symmetric] e2 [symmetric]
    using prov
    by (simp only: example_scan_four example_dir_four example_sizes(1) mem simp_thms)
qed

text \<open>
  C5 (as amended). When a candidate passes the size check, is not the current file, and
  its name starts or ends with the current file's name cut at its first dot, the loop
  returns at once with the messages accumulated so far followed by the candidate's pair,
  whatever \<open>maxFiles\<close> is; no candidate after it in the listing is looked at.
\<close>

theorem early_exit_on_companion_file:
  "sizeAccepted e d f \<and> fst f \<noteq> cur \<and> stemMatches cur f \<longrightarrow>
     currentDirLoop e d cur mx (f # ys) acc = Inr (acc @ candidateContext e d f) \<and>
     getCurrentDirFilteredContext e d (xs @ f # ys) cur mx =
       getCurrentDirFilteredContext e d (xs @ [f]) cur mx"
proof (intro impI conjI)
  assume h: "sizeAccepted e d f \<and> fst f \<noteq> cur \<and> stemMatches cur f"
  then show "currentDirLoop e d cur mx (f # ys) acc = Inr (acc @ candidateContext e d f)"
    using currentDirLoop_early_exit [of e d f cur mx ys acc] by blast
  from h show "getCurrentDirFilteredContext e d (xs @ f # ys) cur mx =
      getCurrentDirFilteredContext e d (xs @ [f]) cur mx"
    unfolding getCurrentDirFilteredContext_def
    by (intro currentDirLoop_cut_after_match) simp_all
qed

theorem early_exit_on_companion_file_witness:
  "sizeAccepted exampleEnv ''/repo/src'' (''foo.spec.ts'', File) \<and>
   stemMatches ''foo.ts'' (''foo.spec.ts'', File) \<and>
   getCurrentDirFilteredContext exampleEnv ''/repo/src''
     [(''a.ts'', File), (''foo.spec.ts'', File), (''b.ts'', File)] ''foo.ts'' 5 =
     Inr (examplePair ''src/a.ts'' ''code'' @ examplePair ''src/foo.spec.ts'' ''code'')"
proof -
  have hyp: "sizeAccepted exampleEnv ''/repo/src'' (''foo.spec.ts'', File) \<and>
      fst (''foo.spec.ts'', File) \<noteq> ''foo.ts'' \<and> stemMatches ''foo.ts'' (''foo.spec.ts'', File)"
    using example_sizes(4) example_stem by simp
  have "currentDirLoop exampleEnv ''/repo/src'' ''foo.ts'' 5
          ((''foo.spec.ts'', File) # [(''b.ts'', File)]) [] =
          Inr ([] @ candidateContext exampleEnv ''/repo/src'' (''foo.spec.ts'', File)) \<and>
        getCurrentDirFilteredContext exampleEnv ''/repo/src''
          ([(''a.ts'', File)] @ (''foo.spec.ts'', File) # [(''b.ts'', File)]) ''foo.ts'' 5 =
        getCurrentDirFilteredContext exampleEnv ''/repo/src''
          ([(''a.ts'', File)] @ [(''foo.spec.ts'', File)]) ''foo.ts'' 5"
    using early_exit_on_companion_file hyp by (rule mp)
  then have e1: "getCurrentDirFilteredContext exampleEnv ''/repo/src''
        [(''a.ts'', File), (''foo.spec.ts'', File), (''b.ts'', File)] ''foo.ts'' 5 =
      getCurrentDirFilteredContext exampleEnv ''/repo/src''
        [(''a.ts'', File), (''foo.spec.ts'', File)] ''foo.ts'' 5"
    by simp
  show ?thesis
    unfolding e1
    by (simp only: example_scan_companion example_sizes(4) example_stem simp_thms)
qed

text \<open>
  The claim as first stated fails: with target \<open>foo.ts\<close>, the candidate \<open>f.ts\<close> has a
  stripped name that is a prefix of the target's base name, and the candidate
  \<open>foo.test.ts\<close> of size 0 matches in either direction, yet the scan goes on to \<open>z.ts\<close>.
\<close>

theorem early_exit_counterexample:
  "startsWith ''foo.ts'' (fileNameWithoutExt ''f.ts'') \<and>
   startsWith ''foo.ts'' (fileNameWithoutExt ''foo.test.ts'') \<and>
   startsWith ''foo.test.ts'' (fileNameWithoutExt ''foo.ts'') \<and>
   stat exampleEnv ''/repo/src/foo.test.ts'' = Inr 0 \<and>
   getCurrentDirFilteredContext exampleEnv ''/repo/src''
     [(''f.ts'', File), (''foo.test.ts'', File), (''z.ts'', File)] ''foo.ts'' 5 =
     Inr (examplePair ''src/f.ts'' ''code'' @ examplePair ''src/z.ts'' ''code'')"
  by (simp add: scan_eval)

text \<open>
  C6 (as amended). For \<open>maxFiles \<ge> 1\<close> the scan returns an even number of messages, at
  most \<open>2 * maxFiles\<close>; and once a listing has produced \<open>2 * maxFiles\<close> messages, candidates
  appended to it are not processed.
\<close>

theorem at_most_maxFiles_pairs:
  "1 \<le> mx \<longrightarrow>
     (getCurrentDirFilteredContext e d files cur mx = Inr msgs \<longrightarrow>
        even (length msgs) \<and> int (length msgs) \<le> 2 * mx) \<and>
     (getCurrentDirFilteredContext e d xs cur mx = Inr msgs' \<and> 2 * mx \<le> int (length msgs') \<longrightarrow>
        getCurrentDirFilteredContext e d (xs @ ys) cur mx = Inr msgs')"
proof (intro impI conjI)
  assume mx: "1 \<le> mx"
  assume "getCurrentDirFilteredContext e d files cur mx = Inr msgs"
  then have "even (length msgs) \<and> int (length msgs) \<le> 2 * mx"
    using currentDirLoop_bound [of mx "[]" e d cur files msgs] mx
    by (simp add: getCurrentDirFilteredContext_def)
  then show "even (length msgs)" and "int (length msgs) \<le> 2 * mx" by simp_all
next
  assume mx: "1 \<le> mx"
  assume "getCurrentDirFilteredContext e d xs cur mx = Inr msgs' \<and> 2 * mx \<le> int (length msgs')"
  then show "getCurrentDirFilteredContext e d (xs @ ys) cur mx = Inr msgs'"
    using currentDirLoop_stops_at_cap [of "[]" mx e d cur xs msgs' ys] mx
    by (simp add: getCurrentDirFilteredContext_def)
qed

theorem at_most_maxFiles_pairs_witness:
  "(1::int) \<le> 2 \<and>
   getCurrentDirFilteredContext exampleEnv ''/repo/src''
     [(''a.ts'', File), (''b.ts'', File)] ''cur.ts'' 2 =
     Inr (examplePair ''src/a.ts'' ''code'' @ examplePair ''src/b.ts'' ''code'') \<and>
   int (length (examplePair ''src/a.ts'' ''code'' @ examplePair ''src/b.ts'' ''code'')) \<le> 2 * 2 \<and>
   getCurrentDirFilteredContext exampleEnv ''/repo/src''
     ([(''a.ts'', File), (''b.ts'', File)] @ [(''c.ts'', File)]) ''cur.ts'' 2 =
     Inr (examplePair ''src/a.ts'' ''code'' @ examplePair ''src/b.ts'' ''code'')"
proof -
  have one: "(1::int) \<le> 2" by simp
  have full: "2 * 2 \<le> int (length (examplePair ''src/a.ts'' ''code'' @
      examplePair ''src/b.ts'' ''code''))"
    by (simp add: examplePair_def)
  note inst = at_most_maxFiles_pairs [of 2 exampleEnv "''/repo/src''"
      "[(''a.ts'', File), (''b.ts'', File)]" "''cur.ts''"
      "examplePair ''src/a.ts'' ''code'' @ examplePair ''src/b.ts'' ''code''"
      "[(''a.ts'', File), (''b.ts'', File)]"
      "examplePair ''src/a.ts'' ''code'' @ examplePair ''src/b.ts'' ''code''"
      "[(''c.ts'', File)]"]
  from inst one example_scan_two full show ?thesis by blast
qed

text \<open>
  The bound fails for \<open>maxFiles = 0\<close>: the cap is tested after the push, so the first
  accepted candidate still contributes its pair.
\<close>

theorem maxFiles_zero_counterexample:
  "getCurrentDirFilteredContext exampleEnv ''/repo/src''
     [(''a.ts'', File), (''b.ts'', File)] ''cur.ts'' 0 =
     Inr [\<lparr>speaker = Human, msgText = Some ''src/a.ts: code'',
           msgFile = Some \<lparr>fileName = ''src/a.ts'', repoName = None, uri = None,
                           source = Some ''editor''\<rparr>\<rparr>,
          \<lparr>speaker = Assistant, msgText = Some ''Ok.'', msgFile = None\<rparr>]"
  by (simp add: scan_eval)

text \<open>
  C8 (as amended). A read or decoding error on a candidate is swallowed by
  \<open>decodeVSCodeTextDoc\<close>, which returns the empty string: the scan gives the result it
  would give if the file were empty, so the candidate still contributes a fragment pair
  (with empty content) and the candidates after it are processed. When every \<open>stat\<close>
  succeeds the scan returns a list.
\<close>

theorem read_errors_are_swallowed:
  "(readFile e u = Inl err \<longrightarrow> decodeVSCodeTextDoc e u = []) \<and>
   (readFile e u = Inr bytes \<and> decode e bytes = Inl err \<longrightarrow> decodeVSCodeTextDoc e u = []) \<and>
   (decode e [] = Inr [] \<longrightarrow>
      getCurrentDirFilteredContext (recoverReads e) d files cur mx =
        getCurrentDirFilteredContext e d files cur mx) \<and>
   (list_all (statSucceeds e d) files \<longrightarrow>
      (\<exists>msgs. getCurrentDirFilteredContext e d files cur mx = Inr msgs))"
  by (simp add: decodeVSCodeTextDoc_def getCurrentDirFilteredContext_def
      currentDirLoop_recoverReads currentDirLoop_returns)

theorem read_errors_are_swallowed_witness:
  "readFile exampleEnv ''/repo/src/locked.ts'' = Inl (Error ''EACCES'') \<and>
   decodeVSCodeTextDoc exampleEnv ''/repo/src/locked.ts'' = [] \<and>
   readFile exampleEnv ''/repo/src/binary.ts'' = Inr ''binary'' \<and>
   decode exampleEnv ''binary'' = Inl (Error ''invalid data'') \<and>
   decodeVSCodeTextDoc exampleEnv ''/repo/src/binary.ts'' = [] \<and>
   decode exampleEnv [] = Inr [] \<and>
   list_all (statSucceeds exampleEnv ''/repo/src'') [(''locked.ts'', File), (''b.ts'', File)] \<and>
   getCurrentDirFilteredContext (recoverReads exampleEnv) ''/repo/src''
     [(''locked.ts'', File), (''b.ts'', File)] ''cur.ts'' 5 =
     Inr (examplePair ''src/locked.ts'' [] @ examplePair ''src/b.ts'' ''code'') \<and>
   getCurrentDirFilteredContext exampleEnv ''/repo/src''
     [(''locked.ts'', File), (''b.ts'', File)] ''cur.ts'' 5 =
     Inr (examplePair ''src/locked.ts'' [] @ examplePair ''src/b.ts'' ''code'')"
proof -
  have r: "readFile exampleEnv ''/repo/src/locked.ts'' = Inl (Error ''EACCES'')"
    and rb: "readFile exampleEnv ''/repo/src/binary.ts'' = Inr ''binary''"
    and db: "decode exampleEnv ''binary'' = Inl (Error ''invalid data'')"
    and dc: "decode exampleEnv [] = Inr []"
    and st: "list_all (statSucceeds exampleEnv ''/repo/src'')
               [(''locked.ts'', File), (''b.ts'', File)]"
    by (simp_all add: exampleEnv_def statSucceeds_def)
  note inst = read_errors_are_swallowed [of exampleEnv "''/repo/src/locked.ts''"
      "Error ''EACCES''" "[]" "''/repo/src''" "[(''locked.ts'', File), (''b.ts'', File)]"
      "''cur.ts''" 5]
  note inst' = read_errors_are_swallowed [of exampleEnv "''/repo/src/binary.ts''"
      "Error ''invalid data''" "''binary''" "''/repo/src''" "[]" "''cur.ts''" 5]
  from inst r have d: "decodeVSCodeTextDoc exampleEnv ''/repo/src/locked.ts'' = []"
    by blast
  from inst' rb db have d': "decodeVSCodeTextDoc exampleEnv ''/repo/src/binary.ts'' = []"
    by blast
  from inst dc have same: "getCurrentDirFilteredContext (recoverReads exampleEnv) ''/repo/src''
     [(''locked.ts'', File), (''b.ts'', File)] ''cur.ts'' 5 =
     getCurrentDirFilteredContext exampleEnv ''/repo/src''
     [(''locked.ts'', File), (''b.ts'', File)] ''cur.ts'' 5"
    by blast
  from inst st have "\<exists>msgs. getCurrentDirFilteredContext exampleEnv ''/repo/src''
     [(''locked.ts'', File), (''b.ts'', File)] ''cur.ts'' 5 = Inr msgs"
    by blast
  with same r d rb db d' dc st example_scan_recovered show ?thesis by simp
qed

text \<open>
  The claim as first stated fails: the unreadable file \<open>locked.ts\<close> is not skipped, it
  contributes a pair whose content is empty.
\<close>

theorem read_error_counterexample:
  "readFile exampleEnv ''/repo/src/locked.ts'' = Inl (Error ''EACCES'') \<and>
   getCurrentDirFilteredContext exampleEnv ''/repo/src''
     [(''locked.ts'', File), (''b.ts'', File)] ''cur.ts'' 5 =
     Inr [\<lparr>speaker = Human, msgText = Some ''src/locked.ts: '',
           msgFile = Some \<lparr>fileName = ''src/locked.ts'', repoName = None, uri = None,
                           source = Some ''editor''\<rparr>\<rparr>,
          \<lparr>speaker = Assistant, msgText = Some ''Ok.'', msgFile = None\<rparr>,
          \<lparr>speaker = Human, msgText = Some ''src/b.ts: code'',
           msgFile = Some \<lparr>fileName = ''src/b.ts'', repoName = None, uri = None,
                           source = Some ''editor''\<rparr>\<rparr>,
          \<lparr>speaker = Assistant, msgText = Some ''Ok.'', msgFile = None\<rparr>]"
  by (simp add: scan_eval)

text \<open>
  The amended claim says nothing about a failing \<open>stat\<close>; in the example workspace it
  rejects the whole scan, the fragment of \<open>a.ts\<close> included.
\<close>

lemma stat_error_aborts_scan:
  "getCurrentDirFilteredContext exampleEnv ''/repo/src''
     [(''a.ts'', File), (''gone.ts'', File), (''b.ts'', File)] ''cur.ts'' 5 =
     Inl (Error ''ENOENT'')"
  by (simp add: scan_eval)

section \<open>Claims about the file search\<close>

text \<open>
  C7. \<open>findVSCodeFiles\<close> returns the empty list when the search rejects, and when the
  search needs more than the 20000 ms after which its token is cancelled; no error
  reaches the caller.
\<close>

theorem findVSCodeFiles_swallows_failures:
  "(findFiles e pattern (excluded x) n 20000 = Inl err \<longrightarrow> findVSCodeFiles e pattern x n = []) \<and>
   (findFiles e = timedFindFiles engine onCancel \<and>
    20000 < duration (engine pattern (excluded x) n) \<longrightarrow> findVSCodeFiles e pattern x n = []) \<and>
   (findFiles e = timedFindFiles engine onCancel \<and>
    outcome (engine pattern (excluded x) n) = Inl err' \<longrightarrow> findVSCodeFiles e pattern x n = [])"
  by (cases onCancel) (simp_all add: findVSCodeFiles_def timedFindFiles_def)

theorem findVSCodeFiles_swallows_failures_witness:
  "findFiles slowEnv ''**/*bad*'' (excluded None) 5 20000 = Inl (Error ''search failed'') \<and>
   findVSCodeFiles slowEnv ''**/*bad*'' None 5 = [] \<and>
   20000 < duration \<lparr>duration = 30000, outcome = Inr (Some [''/repo/src/slow.ts''])\<rparr> \<and>
   findVSCodeFiles slowEnv ''**/*slow*'' None 5 = [] \<and>
   findVSCodeFiles slowEnv ''**/*test*'' None 5 = [''/repo/src/bar.test.ts'']"
proof -
  let ?engine = "\<lambda>pattern excludePattern maxResults.
            if pattern = ''**/*slow*'' then
              \<lparr>duration = 30000, outcome = Inr (Some [''/repo/src/slow.ts''])\<rparr>
            else if pattern = ''**/*bad*'' then
              \<lparr>duration = 5, outcome = Inl (Error ''search failed'')\<rparr>
            else \<lparr>duration = (5::nat), outcome = Inr (Some [''/repo/src/bar.test.ts''])\<rparr>"
  have env: "findFiles slowEnv = timedFindFiles ?engine ResolvesUndefined"
    by (simp add: slowEnv_def)
  have bad: "findFiles slowEnv ''**/*bad*'' (excluded None) 5 20000 =
      Inl (Error ''search failed'')"
    by (simp add: slowEnv_def timedFindFiles_def)
  have slow: "20000 < duration (?engine ''**/*slow*'' (excluded None) 5)"
    by simp
  have r1: "findVSCodeFiles slowEnv ''**/*bad*'' None 5 = []"
    using findVSCodeFiles_swallows_failures [of slowEnv "''**/*bad*''" None 5
        "Error ''search failed''" ?engine ResolvesUndefined "Error ''search failed''"] bad
    by blast
  have r2: "findVSCodeFiles slowEnv ''**/*slow*'' None 5 = []"
    using findVSCodeFiles_swallows_failures [of slowEnv "''**/*slow*''" None 5
        "Error ''search failed''" ?engine ResolvesUndefined "Error ''search failed''"] env slow
    by blast
  have r3: "findVSCodeFiles slowEnv ''**/*test*'' None 5 = [''/repo/src/bar.test.ts'']"
    by (simp add: slowEnv_def findVSCodeFiles_def timedFindFiles_def)
  from bad r1 r2 r3 show ?thesis by simp
qed

subsection \<open>Matching\<close>

lemma wildMatch_star [simp]: "wildMatch ''*'' s"
  by (induction s) auto

lemma segmentsMatch_globstar [simp]: "segmentsMatch [''**''] ss"
  by (induction ss) auto

lemma segmentsMatch_skip_prefix:
  "segmentsMatch (''**'' # ps) ss \<Longrightarrow> segmentsMatch (''**'' # ps) (pre @ ss)"
  by (induction pre) auto

lemma segmentsMatch_directory:
  "p \<noteq> ''**'' \<Longrightarrow> wildMatch p dir \<Longrightarrow>
   segmentsMatch [''**'', p, ''**''] (pre @ dir # post)"
  by (rule segmentsMatch_skip_prefix) (cases post; simp)

lemma startsWith_dot: "startsWith dir ''.'' \<Longrightarrow> wildMatch ''.*'' dir"
  by (cases dir) (auto simp: startsWith_def)

lemma startsWith_snap: "startsWith dir ''snap'' \<Longrightarrow> wildMatch ''snap*'' dir"
proof -
  assume "startsWith dir ''snap''"
  then have "take (length ''snap'') dir = ''snap''" by (simp only: startsWith_def)
  then obtain rest where "dir = ''snap'' @ rest"
    by (metis append_take_drop_id)
  then show ?thesis by simp
qed

lemma wildMatch_node_modules: "wildMatch ''node_modules'' ''node_modules''"
  by simp

lemma braceExpand_default:
  "braceExpand [[]] None ''**/{.*,node_modules,snap*}/**'' =
     [''**/.*/**'', ''**/node_modules/**'', ''**/snap*/**'']"
  by simp

lemma split_default:
  "split CHR ''/'' ''**/.*/**'' = [''**'', ''.*'', ''**'']"
  "split CHR ''/'' ''**/node_modules/**'' = [''**'', ''node_modules'', ''**'']"
  "split CHR ''/'' ''**/snap*/**'' = [''**'', ''snap*'', ''**'']"
  by simp_all

lemma default_exclude_matches:
  assumes "insideExcludedDirectory path"
  shows "globMatch ''**/{.*,node_modules,snap*}/**'' path"
proof -
  from assms obtain dir where
    dir: "dir \<in> set (butlast (split CHR ''/'' path))" and
    kind: "startsWith dir ''.'' \<or> dir = ''node_modules'' \<or> startsWith dir ''snap''"
    by (auto simp: insideExcludedDirectory_def list_ex_iff)
  from dir obtain pre post where bl: "butlast (split CHR ''/'' path) = pre @ dir # post"
    by (meson split_list)
  then have ne: "split CHR ''/'' path \<noteq> []" by auto
  then have "split CHR ''/'' path = pre @ dir # (post @ [last (split CHR ''/'' path)])"
    using bl by (metis append_Cons append_assoc append_butlast_last_id)
  then obtain post' where segs: "split CHR ''/'' path = pre @ dir # post'" by blast
  from kind have
    "segmentsMatch [''**'', ''.*'', ''**''] (pre @ dir # post') \<or>
     segmentsMatch [''**'', ''node_modules'', ''**''] (pre @ dir # post') \<or>
     segmentsMatch [''**'', ''snap*'', ''**''] (pre @ dir # post')"
    using segmentsMatch_directory [of "''.*''" dir pre post']
      segmentsMatch_directory [of "''node_modules''" dir pre post']
      segmentsMatch_directory [of "''snap*''" dir pre post']
      startsWith_dot [of dir] startsWith_snap [of dir] wildMatch_node_modules
    by auto
  then show ?thesis
    unfolding globMatch_def braceExpand_default
    by (simp only: list_ex_iff split_default segs) auto
qed

lemma globSearch_honours:
  "f \<in> set (globSearch ws p x n) \<Longrightarrow> \<not> globMatch x f"
  by (auto simp: globSearch_def dest: in_set_takeD)

lemma pattern_bar:
  "createVSCodeTestSearchPattern ''bar.ts'' False =
     ''**/*{test_bar,bar_test,test.bar,bar.test,barTest}.ts''"
  by (simp add: createVSCodeTestSearchPattern_def extname_def basename_def basenameExt_def
      endsWith_def Let_def)

lemma expand_bar:
  "braceExpand [[]] None ''**/*{test_bar,bar_test,test.bar,bar.test,barTest}.ts'' =
     [''**/*test_bar.ts'', ''**/*bar_test.ts'', ''**/*test.bar.ts'', ''**/*bar.test.ts'',
      ''**/*barTest.ts'']"
  by simp

text \<open>
  C9. For \<open>bar.ts\<close>, without the \<open>allTestFiles\<close> flag, \<open>createVSCodeTestSearchPattern\<close> gives
  \<open>**/*{test_bar,bar_test,test.bar,bar.test,barTest}.ts\<close>, which matches \<open>bar.test.ts\<close>,
  \<open>bar_test.ts\<close>, \<open>test_bar.ts\<close>, \<open>test.bar.ts\<close> and \<open>barTest.ts\<close>.
\<close>

theorem test_search_pattern_matches_conventions:
  "createVSCodeTestSearchPattern ''bar.ts'' False =
     ''**/*{test_bar,bar_test,test.bar,bar.test,barTest}.ts'' \<and>
   globMatch (createVSCodeTestSearchPattern ''bar.ts'' False) ''bar.test.ts'' \<and>
   globMatch (createVSCodeTestSearchPattern ''bar.ts'' False) ''bar_test.ts'' \<and>
   globMatch (createVSCodeTestSearchPattern ''bar.ts'' False) ''test_bar.ts'' \<and>
   globMatch (createVSCodeTestSearchPattern ''bar.ts'' False) ''test.bar.ts'' \<and>
   globMatch (createVSCodeTestSearchPattern ''bar.ts'' False) ''barTest.ts''"
  by (simp add: pattern_bar globMatch_def expand_bar)

text \<open>The pattern is not matched by every name.\<close>

lemma test_search_pattern_rejects_others:
  "\<not> globMatch (createVSCodeTestSearchPattern ''bar.ts'' False) ''bar.ts'' \<and>
   \<not> globMatch (createVSCodeTestSearchPattern ''bar.ts'' False) ''barTester.ts'' \<and>
   \<not> globMatch (createVSCodeTestSearchPattern ''bar.ts'' False) ''bar.test.js''"
  by (simp add: pattern_bar globMatch_def expand_bar)

lemma findVSCodeFiles_excluded:
  "honoursExclude e \<Longrightarrow> f \<in> set (findVSCodeFiles e pattern x n) \<Longrightarrow>
   \<not> globMatch (excluded x) f"
  unfolding honoursExclude_def findVSCodeFiles_def
  by (cases "findFiles e pattern (excluded x) n 20000")
     (auto split: option.splits)

lemma findVSCodeFiles_default:
  "honoursExclude e \<Longrightarrow> f \<in> set (findVSCodeFiles e pattern None n) \<Longrightarrow>
   \<not> insideExcludedDirectory f"
  using findVSCodeFiles_excluded [of e f pattern None n] default_exclude_matches [of f]
  by (auto simp: excluded_def)

lemma createFileContextResponseMessage_single:
  "createFileContextResponseMessage e (getFilePathContext e f) f =
     getContextMessageFromFiles e [f]"
  by simp

text \<open>
  C10. A search without an exclude pattern, or with the empty one, is issued with
  \<open>**/{.*,node_modules,snap*}/**\<close>. When the search capability honours its exclude
  pattern, no file inside a dot-directory, \<open>node_modules\<close> or a \<open>snap*\<close> directory is among
  the results of \<open>findVSCodeFiles\<close>, nor among the files whose context
  \<open>getCodebaseTestFilesContext\<close> and \<open>getCurrentTestFileContext\<close> return when the unit-test
  flag is false.
\<close>

theorem default_exclude_applied:
  "excluded None = ''**/{.*,node_modules,snap*}/**'' \<and>
   excluded (Some []) = ''**/{.*,node_modules,snap*}/**'' \<and>
   findVSCodeFiles e pattern None n =
     findVSCodeFiles e pattern (Some ''**/{.*,node_modules,snap*}/**'') n \<and>
   (honoursExclude e \<longrightarrow>
      list_all (\<lambda>f. \<not> insideExcludedDirectory f) (findVSCodeFiles e pattern None n) \<and>
      (\<exists>files. getCodebaseTestFilesContext e name False = getContextMessageFromFiles e files \<and>
         list_all (\<lambda>f. \<not> insideExcludedDirectory f) files) \<and>
      (\<exists>files. getCurrentTestFileContext e name False = getContextMessageFromFiles e files \<and>
         list_all (\<lambda>f. \<not> insideExcludedDirectory f) files))"
proof (intro conjI impI)
  show "excluded None = ''**/{.*,node_modules,snap*}/**''"
    and "excluded (Some []) = ''**/{.*,node_modules,snap*}/**''"
    by (simp_all add: excluded_def)
  show "findVSCodeFiles e pattern None n =
      findVSCodeFiles e pattern (Some ''**/{.*,node_modules,snap*}/**'') n"
    by (simp add: findVSCodeFiles_def excluded_def)
next
  assume h: "honoursExclude e"
  have all: "\<And>p k. list_all (\<lambda>f. \<not> insideExcludedDirectory f) (findVSCodeFiles e p None k)"
    using findVSCodeFiles_default [OF h] by (auto simp: list_all_iff)
  show "list_all (\<lambda>f. \<not> insideExcludedDirectory f) (findVSCodeFiles e pattern None n)"
    by (rule all)
  let ?found = "findVSCodeFiles e (createVSCodeTestSearchPattern name True) None 5"
  have "getCodebaseTestFilesContext e name False =
          getContextMessageFromFiles e (filter (isValidTestFileName e) ?found)"
    by (simp add: getCodebaseTestFilesContext_def)
  moreover have "list_all (\<lambda>f. \<not> insideExcludedDirectory f)
      (filter (isValidTestFileName e) ?found)"
    using all [of "createVSCodeTestSearchPattern name True" 5] by (auto simp: list_all_iff)
  ultimately show "\<exists>files. getCodebaseTestFilesContext e name False =
      getContextMessageFromFiles e files \<and> list_all (\<lambda>f. \<not> insideExcludedDirectory f) files"
    by blast
  let ?cur = "findVSCodeFiles e (createVSCodeTestSearchPattern name False) None 5"
  show "\<exists>files. getCurrentTestFileContext e name False =
      getContextMessageFromFiles e files \<and> list_all (\<lambda>f. \<not> insideExcludedDirectory f) files"
  proof (cases "find (isValidTestFileName e) ?cur")
    case None
    then have "getCurrentTestFileContext e name False = getContextMessageFromFiles e []"
      by (simp add: getCurrentTestFileContext_def)
    moreover have "list_all (\<lambda>f. \<not> insideExcludedDirectory f) []" by simp
    ultimately show ?thesis by blast
  next
    case (Some testFile)
    then have "testFile \<in> set ?cur"
      by (auto simp: find_Some_iff)
    then have ok: "list_all (\<lambda>f. \<not> insideExcludedDirectory f) [testFile]"
      using all [of "createVSCodeTestSearchPattern name False" 5] by (simp add: list_all_iff)
    have "getCurrentTestFileContext e name False = getContextMessageFromFiles e [testFile]"
      using Some by (simp add: getCurrentTestFileContext_def)
    with ok show ?thesis by blast
  qed
qed

lemma searchEnv_honours: "honoursExclude searchEnv"
  by (auto simp: honoursExclude_def searchEnv_def dest: globSearch_honours)

lemma example_search:
  "findVSCodeFiles searchEnv ''**/*test*.ts'' None 5 = [''src/bar.test.ts'']"
  by (simp add: findVSCodeFiles_def searchEnv_def excluded_def globSearch_def workspaceFiles_def
      globMatch_def braceExpand_default)

theorem default_exclude_applied_witness:
  "honoursExclude searchEnv \<and>
   findVSCodeFiles searchEnv ''**/*test*.ts'' None 5 = [''src/bar.test.ts''] \<and>
   list_all (\<lambda>f. \<not> insideExcludedDirectory f) (findVSCodeFiles searchEnv ''**/*test*.ts'' None 5) \<and>
   insideExcludedDirectory ''node_modules/pkg/x.test.ts'' \<and>
   insideExcludedDirectory ''.git/hooks/y.test.ts'' \<and>
   insideExcludedDirectory ''snapshots/z.test.ts'' \<and>
   globMatch ''**/*test*.ts'' ''node_modules/pkg/x.test.ts''"
proof -
  note inst = default_exclude_applied [of searchEnv "''**/*test*.ts''" 5 "''bar.ts''"]
  from inst searchEnv_honours
  have "list_all (\<lambda>f. \<not> insideExcludedDirectory f)
      (findVSCodeFiles searchEnv ''**/*test*.ts'' None 5)"
    by blast
  moreover have "insideExcludedDirectory ''node_modules/pkg/x.test.ts''"
    "insideExcludedDirectory ''.git/hooks/y.test.ts''"
    "insideExcludedDirectory ''snapshots/z.test.ts''"
    by (simp_all add: insideExcludedDirectory_def startsWith_def)
  moreover have "globMatch ''**/*test*.ts'' ''node_modules/pkg/x.test.ts''"
    by (simp add: globMatch_def)
  ultimately show ?thesis
    using searchEnv_honours example_search by simp
qed

end
